theory Spec2Isabelle
  imports Complex_Main "HOL-Library.AList"
begin

section \<open>Outline extraction from typography: the model\<close>

text \<open>
  The development follows \<^verbatim>\<open>full_outline_extractor.py\<close>: the three functions
  \<^verbatim>\<open>analyze_document_styles\<close>, \<^verbatim>\<open>extract_title\<close> and \<^verbatim>\<open>build_outline\<close>, and the part
  of \<^verbatim>\<open>process_pdf\<close> between opening the document and writing the JSON file.

  Conventions of the model.
  \<^item> A Python \<^verbatim>\<open>str\<close> is a \<open>string\<close>; a \<open>char\<close> stands for the code point of the same
    number, so the model covers texts over U+0000 .. U+00FF.
  \<^item> A font size is a finite float, hence a rational number; \<^verbatim>\<open>round\<close> is Python 3's
    rounding to the nearest integer with ties going to the even neighbour.
  \<^item> A page is represented by what the two calls of \<^verbatim>\<open>get_text\<close> return for it:
    the blocks obtained with \<^verbatim>\<open>flags=fitz.TEXT_INHIBIT_SPACES\<close> (read by the style
    profiler) and the blocks obtained with the default flags (read by the title
    extractor and the outline builder).
  \<^item> A \<^verbatim>\<open>dict\<close> or \<^verbatim>\<open>Counter\<close> is an association list in insertion order, updated
    with \<open>AList.update\<close>: a new key goes to the end, an old key keeps its place.
\<close>

subsection \<open>Python built-ins used by the program\<close>

datatype error = IndexError

definition py_round :: "rat \<Rightarrow> int" where
  "py_round x =
     (let f = \<lfloor>x\<rfloor>; d = x - of_int f
      in if d < 1 / 2 then f
         else if 1 / 2 < d then f + 1
         else if even f then f else f + 1)"

definition isspace :: "char \<Rightarrow> bool" where
  "isspace c =
     (let n = (of_char c :: nat)
      in (9 \<le> n \<and> n \<le> 13) \<or> (28 \<le> n \<and> n \<le> 32) \<or> n = 133 \<or> n = 160)"

definition lower_char :: "char \<Rightarrow> char" where
  "lower_char c =
     (let n = (of_char c :: nat)
      in if (65 \<le> n \<and> n \<le> 90) \<or> (192 \<le> n \<and> n \<le> 222 \<and> n \<noteq> 215)
         then char_of (n + 32) else c)"

definition lower :: "string \<Rightarrow> string" where
  "lower s = map lower_char s"

definition strip :: "string \<Rightarrow> string" where
  "strip s = rev (dropWhile isspace (rev (dropWhile isspace s)))"

text \<open>\<^verbatim>\<open>sub in s\<close> for strings: \<open>sub\<close> occurs in \<open>s\<close> as a contiguous piece.\<close>

fun py_in :: "string \<Rightarrow> string \<Rightarrow> bool" where
  "py_in sub [] = (sub = [])"
| "py_in sub (c # cs) = (take (length sub) (c # cs) = sub \<or> py_in sub cs)"

text \<open>\<^verbatim>\<open>sep.join(parts)\<close>.\<close>

fun join :: "string \<Rightarrow> string list \<Rightarrow> string" where
  "join sep [] = []"
| "join sep [x] = x"
| "join sep (x # y # ys) = x @ sep @ join sep (y # ys)"

text \<open>\<^verbatim>\<open>s.replace("\n", " ")\<close>.\<close>

definition replace_newline :: "string \<Rightarrow> string" where
  "replace_newline s = map (\<lambda>c. if c = CHR 0x0A then CHR '' '' else c) s"

text \<open>
  \<^verbatim>\<open>re.sub(r'\s+', ' ', s)\<close>: every maximal run of whitespace becomes one space.
  The flag tells whether the previous character belonged to a run already replaced.
\<close>

fun re_sub_ws_from :: "bool \<Rightarrow> string \<Rightarrow> string" where
  "re_sub_ws_from in_run [] = []"
| "re_sub_ws_from in_run (c # cs) =
     (if isspace c
      then (if in_run then re_sub_ws_from True cs else CHR '' '' # re_sub_ws_from True cs)
      else c # re_sub_ws_from False cs)"

definition re_sub_ws :: "string \<Rightarrow> string" where
  "re_sub_ws s = re_sub_ws_from False s"

subsection \<open>The parsed document\<close>

record span =
  span_text :: string
  span_size :: rat
  span_font :: string

record line =
  line_spans :: "span list"

record block =
  block_type :: int
  block_lines :: "line list"

record page =
  blocks_inhibit_spaces :: "block list"
  blocks :: "block list"

type_synonym document = "page list"

type_synonym style = "int \<times> bool"

record entry =
  entry_level :: string
  entry_text :: string
  entry_page :: nat

record result =
  result_title :: string
  result_outline :: "entry list"

text \<open>The pair \<^verbatim>\<open>(round(span['size']), "bold" in span['font'].lower())\<close>.\<close>

definition style_key :: "span \<Rightarrow> style" where
  "style_key sp = (py_round (span_size sp), py_in ''bold'' (lower (span_font sp)))"

subsection \<open>\<^verbatim>\<open>analyze_document_styles\<close>\<close>

text \<open>\<^verbatim>\<open>styles[k] += 1\<close> on a \<^verbatim>\<open>Counter\<close>.\<close>

definition counter_incr :: "style \<Rightarrow> (style \<times> nat) list \<Rightarrow> (style \<times> nat) list" where
  "counter_incr k styles =
     AList.update k (case map_of styles k of None \<Rightarrow> 1 | Some n \<Rightarrow> n + 1) styles"

definition count_span :: "span \<Rightarrow> (style \<times> nat) list \<Rightarrow> (style \<times> nat) list" where
  "count_span sp styles =
     (if 1 < length (strip (span_text sp)) then counter_incr (style_key sp) styles else styles)"

definition count_block :: "block \<Rightarrow> (style \<times> nat) list \<Rightarrow> (style \<times> nat) list" where
  "count_block b styles =
     (if block_type b = 0
      then fold (\<lambda>li. fold count_span (line_spans li)) (block_lines b) styles
      else styles)"

text \<open>The histogram after the loop over \<^verbatim>\<open>doc[1:]\<close>.\<close>

definition count_styles :: "document \<Rightarrow> (style \<times> nat) list" where
  "count_styles doc =
     fold (\<lambda>pg. fold count_block (blocks_inhibit_spaces pg)) (drop 1 doc) []"

text \<open>
  \<^verbatim>\<open>sorted(styles.keys(), key=lambda x: x[0], reverse=True)\<close>: a stable sort, sizes
  descending; keys of equal size stay in the order of the dictionary.
\<close>

definition sorted_styles :: "document \<Rightarrow> style list" where
  "sorted_styles doc = sort_key (\<lambda>x. - fst x) (map fst (count_styles doc))"

definition final_heading_styles :: "document \<Rightarrow> style list" where
  "final_heading_styles doc =
     (if 2 < length (sorted_styles doc) then drop 1 (sorted_styles doc) else sorted_styles doc)"

definition heading_levels :: "string list" where
  "heading_levels = [''H1'', ''H2'', ''H3'']"

text \<open>The loop over \<^verbatim>\<open>enumerate(final_heading_styles)\<close>, from index \<open>i\<close> on.\<close>

fun assign_levels :: "nat \<Rightarrow> style list \<Rightarrow> (style \<times> string) list \<Rightarrow> (style \<times> string) list" where
  "assign_levels i [] style_map = style_map"
| "assign_levels i (s # ss) style_map =
     assign_levels (Suc i) ss
       (if i < length heading_levels then AList.update s (heading_levels ! i) style_map
        else style_map)"

definition analyze_document_styles :: "document \<Rightarrow> (style \<times> string) list" where
  "analyze_document_styles doc =
     (if count_styles doc = [] then []
      else assign_levels 0 (final_heading_styles doc) [])"

subsection \<open>\<^verbatim>\<open>extract_title\<close>\<close>

definition max_size_block :: "block \<Rightarrow> int \<Rightarrow> int" where
  "max_size_block b max_size =
     (if block_type b = 0
      then fold (\<lambda>li. fold (\<lambda>sp m. if m < py_round (span_size sp) then py_round (span_size sp) else m)
                         (line_spans li))
             (block_lines b) max_size
      else max_size)"

definition title_line_text :: "int \<Rightarrow> line \<Rightarrow> string" where
  "title_line_text max_size li =
     strip (concat (map span_text (filter (\<lambda>sp. py_round (span_size sp) = max_size) (line_spans li))))"

definition title_parts_block :: "int \<Rightarrow> block \<Rightarrow> string list \<Rightarrow> string list" where
  "title_parts_block max_size b title_parts =
     (if block_type b = 0
      then fold (\<lambda>li parts. if title_line_text max_size li \<noteq> []
                            then parts @ [title_line_text max_size li] else parts)
             (block_lines b) title_parts
      else title_parts)"

definition extract_title :: "document \<Rightarrow> error + string" where
  "extract_title doc =
     (case doc of
        [] \<Rightarrow> Inl IndexError
      | first_page # _ \<Rightarrow>
          (let max_size = fold max_size_block (blocks first_page) 0
           in if max_size = 0 then Inr ''Untitled''
              else Inr (strip (replace_newline
                     (join '' '' (fold (title_parts_block max_size) (blocks first_page) []))))))"

subsection \<open>\<^verbatim>\<open>build_outline\<close>\<close>

definition line_text :: "line \<Rightarrow> string" where
  "line_text li = re_sub_ws (strip (join '' '' (map (\<lambda>s. strip (span_text s)) (line_spans li))))"

text \<open>
  The body of the innermost loop. The membership test on the keys and the lookup
  \<^verbatim>\<open>style_map[style_key]\<close> are one \<open>case\<close> on \<open>map_of\<close>: the key is absent exactly when
  the lookup gives \<open>None\<close>.
\<close>

definition outline_line :: "(style \<times> string) list \<Rightarrow> nat \<Rightarrow> line \<Rightarrow> entry list \<Rightarrow> entry list" where
  "outline_line style_map page_num li outline =
     (case line_spans li of
        [] \<Rightarrow> outline
      | sp # _ \<Rightarrow>
          if length (line_text li) < 3 then outline
          else (case map_of style_map (style_key sp) of
                  None \<Rightarrow> outline
                | Some level \<Rightarrow>
                    if lower (line_text li) = ''syllabus'' \<and> outline \<noteq> []
                       \<and> py_in ''overview'' (lower (entry_text (last outline)))
                    then butlast outline
                           @ [(last outline)\<lparr>entry_text := entry_text (last outline) @ line_text li\<rparr>]
                    else if outline = [] \<or> entry_text (last outline) \<noteq> line_text li
                    then outline @ [\<lparr>entry_level = level, entry_text = line_text li,
                                      entry_page = page_num\<rparr>]
                    else outline))"

definition outline_block :: "(style \<times> string) list \<Rightarrow> nat \<Rightarrow> block \<Rightarrow> entry list \<Rightarrow> entry list" where
  "outline_block style_map page_num b outline =
     (if block_type b = 0 then fold (outline_line style_map page_num) (block_lines b) outline
      else outline)"

definition build_outline :: "document \<Rightarrow> (style \<times> string) list \<Rightarrow> entry list" where
  "build_outline doc style_map =
     (if style_map = [] then []
      else fold (\<lambda>(page_num, pg). fold (outline_block style_map page_num) (blocks pg))
             (List.enumerate 1 doc) [])"

subsection \<open>\<^verbatim>\<open>process_pdf\<close>, from the opened document to the result\<close>

definition process_pdf :: "document \<Rightarrow> error + result" where
  "process_pdf doc =
     (case extract_title doc of
        Inl e \<Rightarrow> Inl e
      | Inr t \<Rightarrow> Inr \<lparr>result_title = t, result_outline = build_outline doc (analyze_document_styles doc)\<rparr>)"


subsection \<open>Notions used to state the properties\<close>

text \<open>
  The lines and the spans of the text blocks (type 0) of a list of blocks, in
  document order.
\<close>

definition text_lines :: "block list \<Rightarrow> line list" where
  "text_lines bs = concat (map block_lines (filter (\<lambda>b. block_type b = 0) bs))"

definition text_spans :: "block list \<Rightarrow> span list" where
  "text_spans bs = concat (map line_spans (text_lines bs))"

text \<open>
  The spans that the style profiler counts: those of the text blocks of pages 2..N
  whose stripped text is longer than one character. The styles observed in a
  document are the style keys of these spans.
\<close>

definition substantial_spans :: "document \<Rightarrow> span list" where
  "substantial_spans doc =
     filter (\<lambda>sp. 1 < length (strip (span_text sp)))
       (text_spans (concat (map blocks_inhibit_spaces (drop 1 doc))))"

definition observed_styles :: "document \<Rightarrow> style set" where
  "observed_styles doc = set (map style_key (substantial_spans doc))"


text \<open>
  The title as the specification describes it: the largest rounded size among the
  spans of the page's text blocks; for each line the concatenation of the texts of
  the spans of that size, stripped, kept when not empty; the parts joined by one
  space, newlines replaced by spaces, the whole stripped.
\<close>

definition page_max_size :: "block list \<Rightarrow> int" where
  "page_max_size bs = Max (set (map (\<lambda>sp. py_round (span_size sp)) (text_spans bs)))"

definition title_of_max_size_spans :: "block list \<Rightarrow> string" where
  "title_of_max_size_spans bs =
     strip (replace_newline (join '' ''
       (filter (\<lambda>t. t \<noteq> [])
          (map (\<lambda>li. strip (concat (map span_text
                   (filter (\<lambda>sp. py_round (span_size sp) = page_max_size bs) (line_spans li)))))
             (text_lines bs)))))"

text \<open>
  A text that looks like the result of the merge of a "syllabus" line: lowercased, it
  contains "overview" and ends with "syllabus". Two neighbouring entries are
  \<open>distinct_unless_merged\<close> when their texts differ or the second has such a text.
\<close>

definition merged_text :: "string \<Rightarrow> bool" where
  "merged_text t \<longleftrightarrow>
     py_in ''overview'' (lower t) \<and> drop (length t - 8) (lower t) = ''syllabus''"

definition distinct_unless_merged :: "entry \<Rightarrow> entry \<Rightarrow> bool" where
  "distinct_unless_merged a b \<longleftrightarrow> entry_text a \<noteq> entry_text b \<or> merged_text (entry_text b)"

subsection \<open>Example documents\<close>

definition mk_span :: "string \<Rightarrow> rat \<Rightarrow> string \<Rightarrow> span" where
  "mk_span t s f = \<lparr>span_text = t, span_size = s, span_font = f\<rparr>"

definition text_page :: "line list \<Rightarrow> page" where
  "text_page ls =
     \<lparr>blocks_inhibit_spaces = [\<lparr>block_type = 0, block_lines = ls\<rparr>],
      blocks = [\<lparr>block_type = 0, block_lines = ls\<rparr>]\<rparr>"

definition one_span_line :: "string \<Rightarrow> rat \<Rightarrow> string \<Rightarrow> line" where
  "one_span_line t s f = \<lparr>line_spans = [mk_span t s f]\<rparr>"

definition example_two_styles :: document where
  "example_two_styles =
     [text_page [one_span_line ''Report'' 24 ''Helvetica''],
      text_page [one_span_line ''Body text'' (21 / 2) ''Times'',
                 one_span_line ''Chapter'' 14 ''Times-Bold'',
                 one_span_line ''more body'' (21 / 2) ''Times'']]"

definition example_five_styles :: document where
  "example_five_styles =
     [text_page [one_span_line ''Report'' 24 ''Helvetica''],
      text_page [one_span_line ''Body text'' 10 ''Times'',
                 one_span_line ''Section'' 14 ''Times'',
                 one_span_line ''Banner'' 30 ''Times'',
                 one_span_line ''Chapter'' 14 ''Times-Bold'',
                 one_span_line ''Note'' 8 ''Times'',
                 one_span_line ''x'' 40 ''Times'']]"


definition example_tiny_font :: document where
  "example_tiny_font = [text_page [one_span_line ''abc'' (2 / 5) ''Times'']]"

definition example_untitled_text :: document where
  "example_untitled_text = [text_page [one_span_line ''Untitled'' 12 ''Times'']]"

definition example_image_only :: document where
  "example_image_only =
     [\<lparr>blocks_inhibit_spaces = [], blocks = [\<lparr>block_type = 1, block_lines = []\<rparr>]\<rparr>]"

definition example_title_page :: document where
  "example_title_page =
     [text_page [\<lparr>line_spans = [mk_span ''Annual '' 24 ''Helvetica'', mk_span ''(draft)'' 9 ''Helvetica'']\<rparr>,
                 one_span_line ''by the authors'' 12 ''Times'',
                 one_span_line '' Report'' (47 / 2) ''Helvetica'']]"

definition example_syllabus :: document where
  "example_syllabus =
     [text_page [one_span_line ''Course Handbook'' 24 ''Helvetica''],
      text_page [one_span_line ''1. Course Overview'' 14 ''Times-Bold'',
                 one_span_line ''Syllabus'' 12 ''Times'',
                 one_span_line ''Body of the first section.'' 12 ''Times'']]"

definition example_merged_duplicate :: document where
  "example_merged_duplicate =
     [text_page [one_span_line ''Handbook'' 24 ''Helvetica''],
      text_page [one_span_line ''OverviewSyllabus'' 12 ''Times'',
                 one_span_line ''Overview'' 12 ''Times'',
                 one_span_line ''Syllabus'' 12 ''Times'']]"

section \<open>The style profiler\<close>

subsection \<open>The histogram and the ranked styles\<close>

lemma fold_fold_concat: "fold (\<lambda>x. fold f (g x)) xs s = fold f (concat (map g xs)) s"
  by (induction xs arbitrary: s) simp_all

lemma fold_count_span_filter:
  "fold count_span sps c =
   fold counter_incr (map style_key (filter (\<lambda>sp. 1 < length (strip (span_text sp))) sps)) c"
  by (induction sps arbitrary: c) (simp_all add: count_span_def)

lemma fold_count_block:
  "fold count_block bs c = fold count_span (text_spans bs) c"
  by (induction bs arbitrary: c)
     (simp_all add: count_block_def text_spans_def text_lines_def fold_fold_concat)

lemma count_styles_flat:
  "count_styles doc = fold counter_incr (map style_key (substantial_spans doc)) []"
  by (simp add: count_styles_def fold_fold_concat fold_count_block fold_count_span_filter
        substantial_spans_def)

lemma update_fresh: "k \<notin> fst ` set al \<Longrightarrow> AList.update k v al = al @ [(k, v)]"
  by (induction al) auto

lemma keys_fold_counter_incr:
  "fst ` set (fold counter_incr ks c) = fst ` set c \<union> set ks"
  by (induction ks arbitrary: c) (auto simp: counter_incr_def dom_update)

lemma distinct_fold_counter_incr:
  "distinct (map fst c) \<Longrightarrow> distinct (map fst (fold counter_incr ks c))"
  by (induction ks arbitrary: c) (simp_all add: counter_incr_def distinct_update)

lemma set_keys_count_styles: "set (map fst (count_styles doc)) = observed_styles doc"
  using keys_fold_counter_incr [of "map style_key (substantial_spans doc)" "[]"]
  by (simp add: count_styles_flat observed_styles_def)

lemma distinct_keys_count_styles: "distinct (map fst (count_styles doc))"
  by (simp add: count_styles_flat distinct_fold_counter_incr)

lemma set_sorted_styles: "set (sorted_styles doc) = observed_styles doc"
  using set_keys_count_styles by (simp add: sorted_styles_def)

lemma distinct_sorted_styles: "distinct (sorted_styles doc)"
  using distinct_keys_count_styles by (simp add: sorted_styles_def)

lemma length_sorted_styles: "length (sorted_styles doc) = card (observed_styles doc)"
  using distinct_card [OF distinct_sorted_styles] by (simp add: set_sorted_styles)

lemma descending_sorted_styles: "sorted_wrt (\<lambda>a b. fst b \<le> fst a) (sorted_styles doc)"
proof -
  have "sorted (map (\<lambda>x. - fst x) (sorted_styles doc))"
    by (simp add: sorted_styles_def)
  then show ?thesis
    by (simp add: sorted_map)
qed

lemma assign_levels_zip:
  "distinct ks \<Longrightarrow> set ks \<inter> fst ` set m = {} \<Longrightarrow>
   assign_levels i ks m = m @ zip (take (3 - i) ks) (drop i heading_levels)"
proof (induction ks arbitrary: i m)
  case Nil
  then show ?case by simp
next
  case (Cons k ks)
  show ?case
  proof (cases "i < 3")
    case True
    from Cons.prems have fresh: "k \<notin> fst ` set m" by auto
    have hl: "drop i heading_levels = heading_levels ! i # drop (Suc i) heading_levels"
      using True Cons_nth_drop_Suc [of i heading_levels] by (simp add: heading_levels_def)
    have tk: "take (3 - i) (k # ks) = k # take (3 - Suc i) ks"
    proof -
      from True have "3 - i = Suc (3 - Suc i)" by simp
      then show ?thesis by (simp only: take_Suc_Cons)
    qed
    have "assign_levels i (k # ks) m = assign_levels (Suc i) ks (m @ [(k, heading_levels ! i)])"
      using True fresh by (simp add: heading_levels_def update_fresh)
    also have "\<dots> = (m @ [(k, heading_levels ! i)]) @ zip (take (3 - Suc i) ks) (drop (Suc i) heading_levels)"
      using Cons.prems by (intro Cons.IH) auto
    finally show ?thesis
      by (simp add: hl tk)
  next
    case False
    have "assign_levels i (k # ks) m = assign_levels (Suc i) ks m"
      using False by (simp add: heading_levels_def)
    also have "\<dots> = m @ zip (take (3 - Suc i) ks) (drop (Suc i) heading_levels)"
      using Cons.prems by (intro Cons.IH) auto
    finally show ?thesis
      using False by simp
  qed
qed

lemma distinct_final_heading_styles: "distinct (final_heading_styles doc)"
  by (simp add: final_heading_styles_def distinct_sorted_styles distinct_drop)

lemma analyze_document_styles_zip:
  "analyze_document_styles doc = zip (take 3 (final_heading_styles doc)) heading_levels"
proof (cases "count_styles doc = []")
  case True
  then show ?thesis
    by (simp add: analyze_document_styles_def final_heading_styles_def sorted_styles_def)
next
  case False
  then show ?thesis
    using assign_levels_zip [OF distinct_final_heading_styles, of doc "[]" 0]
    by (simp add: analyze_document_styles_def)
qed



subsection \<open>Properties of the style map\<close>

text \<open>
  C8. For every document the style map has at most three entries, with pairwise
  different keys; its values are among "H1", "H2", "H3"; and each key is the style
  of a substantial span on pages 2..N.
\<close>

theorem style_map_bounded:
  "length (analyze_document_styles doc) \<le> 3
   \<and> distinct (map fst (analyze_document_styles doc))
   \<and> snd ` set (analyze_document_styles doc) \<subseteq> {''H1'', ''H2'', ''H3''}
   \<and> fst ` set (analyze_document_styles doc) \<subseteq> observed_styles doc"
proof -
  let ?fin = "final_heading_styles doc"
  have z: "analyze_document_styles doc = zip (take 3 ?fin) heading_levels"
    by (rule analyze_document_styles_zip)
  have len: "length (analyze_document_styles doc) \<le> 3"
    by (simp add: z heading_levels_def)
  have keys: "map fst (analyze_document_styles doc) = take 3 ?fin"
    by (simp add: z heading_levels_def map_fst_zip_take min_def)
  have dist: "distinct (map fst (analyze_document_styles doc))"
    by (simp add: keys distinct_final_heading_styles)
  have "set (take 3 ?fin) \<subseteq> set ?fin"
    by (rule set_take_subset)
  also have "set ?fin \<subseteq> set (sorted_styles doc)"
    by (simp add: final_heading_styles_def set_drop_subset)
  finally have "set (map fst (analyze_document_styles doc)) \<subseteq> observed_styles doc"
    by (simp only: keys set_sorted_styles)
  then have obs: "fst ` set (analyze_document_styles doc) \<subseteq> observed_styles doc"
    by simp
  have "snd ` set (zip (take 3 ?fin) heading_levels) \<subseteq> set heading_levels"
    by (auto dest: set_zip_rightD)
  then have vals: "snd ` set (analyze_document_styles doc) \<subseteq> {''H1'', ''H2'', ''H3''}"
    by (simp add: z heading_levels_def)
  from len dist vals obs show ?thesis by blast
qed


text \<open>
  C4. With at most two distinct observed styles nothing is rejected: the style map
  has as many entries as there are observed styles and its keys are exactly these
  styles. One style gives the single entry "H1"; two styles give "H1" and "H2", the
  larger size first; "H3" is never assigned.
\<close>

theorem no_rejection_up_to_two_styles:
  assumes "card (observed_styles doc) \<le> 2"
  shows "length (analyze_document_styles doc) = card (observed_styles doc)
    \<and> distinct (map fst (analyze_document_styles doc))
    \<and> fst ` set (analyze_document_styles doc) = observed_styles doc
    \<and> ''H3'' \<notin> snd ` set (analyze_document_styles doc)
    \<and> (card (observed_styles doc) = 1 \<longrightarrow>
         (\<exists>k. observed_styles doc = {k} \<and> analyze_document_styles doc = [(k, ''H1'')]))
    \<and> (card (observed_styles doc) = 2 \<longrightarrow>
         (\<exists>k1 k2. observed_styles doc = {k1, k2} \<and> k1 \<noteq> k2 \<and> fst k2 \<le> fst k1
            \<and> analyze_document_styles doc = [(k1, ''H1''), (k2, ''H2'')]))"
proof -
  let ?ss = "sorted_styles doc"
  from assms have len: "length ?ss \<le> 2"
    by (simp add: length_sorted_styles)
  then have fin: "final_heading_styles doc = ?ss"
    by (simp add: final_heading_styles_def)
  have z: "analyze_document_styles doc = zip ?ss heading_levels"
    using len by (simp add: analyze_document_styles_zip fin)
  consider "?ss = []" | k where "?ss = [k]" | k1 k2 where "?ss = [k1, k2]"
    using len by (cases ?ss rule: list.exhaust; simp; metis Suc_le_mono le_zero_eq length_0_conv list.exhaust list.size(4) numeral_2_eq_2 One_nat_def add.commute plus_1_eq_Suc)
  then show ?thesis
  proof cases
    case 1
    with set_sorted_styles [of doc] length_sorted_styles [of doc] show ?thesis
      by (simp add: z)
  next
    case 2
    with set_sorted_styles [of doc] length_sorted_styles [of doc] show ?thesis
      by (cases k) (auto simp add: z heading_levels_def)
  next
    case 3
    with set_sorted_styles [of doc] length_sorted_styles [of doc]
      distinct_sorted_styles [of doc] descending_sorted_styles [of doc]
    show ?thesis
      by (cases k1; cases k2) (auto simp add: z heading_levels_def)
  qed
qed

theorem no_rejection_up_to_two_styles_witness:
  "card (observed_styles example_two_styles) \<le> 2
   \<and> analyze_document_styles example_two_styles = [((14, True), ''H1''), ((10, False), ''H2'')]
   \<and> length (analyze_document_styles example_two_styles) = card (observed_styles example_two_styles)"
proof -
  have h: "card (observed_styles example_two_styles) \<le> 2"
    by code_simp
  have v: "analyze_document_styles example_two_styles = [((14, True), ''H1''), ((10, False), ''H2'')]"
    by code_simp
  from no_rejection_up_to_two_styles [OF h] h v show ?thesis
    by blast
qed


text \<open>
  C1. With more than two distinct observed styles, the ranked list
  \<^verbatim>\<open>sorted_styles\<close> enumerates the observed styles without repetition, sizes
  descending. Its first element, a style of the largest size, is not a key of the
  style map; the second maps to "H1", the third to "H2", and the fourth, when there
  is one, to "H3".
\<close>

theorem outlier_rejection:
  assumes "2 < card (observed_styles doc)"
  shows "\<exists>k0 k1 k2 rest.
      sorted_styles doc = k0 # k1 # k2 # rest
    \<and> set (sorted_styles doc) = observed_styles doc
    \<and> distinct (sorted_styles doc)
    \<and> sorted_wrt (\<lambda>a b. fst b \<le> fst a) (sorted_styles doc)
    \<and> k0 \<notin> fst ` set (analyze_document_styles doc)
    \<and> analyze_document_styles doc = zip (take 3 (k1 # k2 # rest)) [''H1'', ''H2'', ''H3'']
    \<and> map_of (analyze_document_styles doc) k1 = Some ''H1''
    \<and> map_of (analyze_document_styles doc) k2 = Some ''H2''
    \<and> (\<forall>k3 \<in> set (take 1 rest). map_of (analyze_document_styles doc) k3 = Some ''H3'')"
proof -
  let ?ss = "sorted_styles doc"
  from assms have len: "2 < length ?ss"
    by (simp add: length_sorted_styles)
  then obtain k0 k1 k2 rest where ss: "?ss = k0 # k1 # k2 # rest"
    by (cases ?ss; simp; metis Suc_less_eq length_0_conv list.exhaust list.size(4) not_less_zero numeral_2_eq_2 One_nat_def add.commute plus_1_eq_Suc)
  have fin: "final_heading_styles doc = k1 # k2 # rest"
    using len by (simp add: final_heading_styles_def ss)
  have z: "analyze_document_styles doc = zip (take 3 (k1 # k2 # rest)) [''H1'', ''H2'', ''H3'']"
    by (simp add: analyze_document_styles_zip fin heading_levels_def)
  have d: "distinct (k0 # k1 # k2 # rest)"
    using distinct_sorted_styles [of doc] by (simp only: ss)
  have absent: "k0 \<notin> fst ` set (analyze_document_styles doc)"
  proof
    assume "k0 \<in> fst ` set (analyze_document_styles doc)"
    then have "k0 \<in> set (take 3 (k1 # k2 # rest))"
      unfolding z by (auto dest: set_zip_leftD)
    then have "k0 \<in> set (k1 # k2 # rest)"
      by (rule in_set_takeD)
    with d show False by simp
  qed
  have m1: "map_of (analyze_document_styles doc) k1 = Some ''H1''"
    by (simp add: z)
  have m2: "map_of (analyze_document_styles doc) k2 = Some ''H2''"
    using d by (auto simp: z)
  have m3: "\<forall>k3 \<in> set (take 1 rest). map_of (analyze_document_styles doc) k3 = Some ''H3''"
    using d by (cases rest) (auto simp: z)
  from ss set_sorted_styles [of doc] distinct_sorted_styles [of doc]
    descending_sorted_styles [of doc] absent z m1 m2 m3
  show ?thesis by blast
qed

theorem outlier_rejection_witness:
  "2 < card (observed_styles example_five_styles)
   \<and> sorted_styles example_five_styles
       = [(30, False), (14, False), (14, True), (10, False), (8, False)]
   \<and> analyze_document_styles example_five_styles
       = [((14, False), ''H1''), ((14, True), ''H2''), ((10, False), ''H3'')]"
proof -
  have h: "2 < card (observed_styles example_five_styles)"
    by code_simp
  have s: "sorted_styles example_five_styles
       = [(30, False), (14, False), (14, True), (10, False), (8, False)]"
    by code_simp
  from outlier_rejection [OF h] obtain k0 k1 k2 rest where
    "sorted_styles example_five_styles = k0 # k1 # k2 # rest"
    "analyze_document_styles example_five_styles = zip (take 3 (k1 # k2 # rest)) [''H1'', ''H2'', ''H3'']"
    by blast
  with s h show ?thesis by simp
qed



section \<open>The title extractor\<close>

subsection \<open>The two passes over the first page\<close>

lemma fold_max_size_block:
  "fold max_size_block bs m = fold max (map (\<lambda>sp. py_round (span_size sp)) (text_spans bs)) m"
proof -
  have step: "(\<lambda>sp m. if m < py_round (span_size sp) then py_round (span_size sp) else m)
        = (\<lambda>sp. max (py_round (span_size sp)))"
    by (rule ext, rule ext) (simp add: max_def)
  have "fold max_size_block bs m =
        fold (\<lambda>sp. max (py_round (span_size sp))) (text_spans bs) m"
    by (induction bs arbitrary: m)
       (simp_all add: max_size_block_def step text_spans_def text_lines_def fold_fold_concat)
  then show ?thesis
    by (simp add: fold_map comp_def)
qed

lemma max_size_eq_Max:
  "fold max_size_block bs 0 = Max (insert 0 ((\<lambda>sp. py_round (span_size sp)) ` set (text_spans bs)))"
  using Max.set_eq_fold [of 0 "map (\<lambda>sp. py_round (span_size sp)) (text_spans bs)"]
  by (simp add: fold_max_size_block)

lemma max_size_zero_iff:
  "fold max_size_block bs 0 = 0 \<longleftrightarrow> (\<forall>sp \<in> set (text_spans bs). py_round (span_size sp) < 1)"
proof -
  let ?A = "insert 0 ((\<lambda>sp. py_round (span_size sp)) ` set (text_spans bs))"
  have fin: "finite ?A" and ne: "?A \<noteq> {}" by simp_all
  have "Max ?A = 0 \<longleftrightarrow> (\<forall>a \<in> ?A. a \<le> 0)"
  proof
    assume "Max ?A = 0"
    then show "\<forall>a \<in> ?A. a \<le> 0"
      using Max_ge [OF fin] by metis
  next
    assume le: "\<forall>a \<in> ?A. a \<le> 0"
    show "Max ?A = 0"
    proof (rule Max_eqI)
      show "finite ?A" by (rule fin)
      show "y \<le> 0" if "y \<in> ?A" for y using le that by blast
      show "0 \<in> ?A" by simp
    qed
  qed
  also have "\<dots> \<longleftrightarrow> (\<forall>sp \<in> set (text_spans bs). py_round (span_size sp) < 1)"
    by force
  finally show ?thesis
    by (simp only: max_size_eq_Max)
qed

lemma max_size_eq_page_max_size:
  assumes "sp \<in> set (text_spans bs)" and "1 \<le> py_round (span_size sp)"
  shows "fold max_size_block bs 0 = page_max_size bs"
proof -
  let ?B = "(\<lambda>sp. py_round (span_size sp)) ` set (text_spans bs)"
  have fin: "finite ?B" by simp
  have ne: "?B \<noteq> {}" using assms(1) by auto
  have "py_round (span_size sp) \<le> Max ?B"
    using assms(1) fin by (intro Max_ge) auto
  with assms(2) have "0 \<le> Max ?B" by simp
  then have "Max (insert 0 ?B) = Max ?B"
    using fin ne by (simp add: max_def)
  then show ?thesis
    by (simp add: max_size_eq_Max page_max_size_def)
qed

lemma fold_title_parts_block:
  "fold (title_parts_block M) bs acc =
   acc @ filter (\<lambda>t. t \<noteq> []) (map (title_line_text M) (text_lines bs))"
proof -
  have lines: "fold (\<lambda>li parts. if title_line_text M li \<noteq> []
                                 then parts @ [title_line_text M li] else parts) ls acc
        = acc @ filter (\<lambda>t. t \<noteq> []) (map (title_line_text M) ls)" for ls acc
    by (induction ls arbitrary: acc) simp_all
  show ?thesis
    by (induction bs arbitrary: acc) (simp_all add: title_parts_block_def lines text_lines_def)
qed

lemma set_strip: "set (strip s) \<subseteq> set s"
proof -
  have "set (strip s) \<subseteq> set (dropWhile isspace s)"
    unfolding strip_def using set_dropWhileD [of _ isspace "rev (dropWhile isspace s)"] by auto
  also have "\<dots> \<subseteq> set s"
    using set_dropWhileD [of _ isspace s] by auto
  finally show ?thesis .
qed

lemma newline_replaced: "CHR 0x0A \<notin> set (replace_newline s)"
  by (auto simp: replace_newline_def)

lemma extract_title_sentinel:
  "fold max_size_block (blocks p) 0 = 0 \<Longrightarrow> extract_title (p # ps) = Inr ''Untitled''"
  by (simp add: extract_title_def)

lemma extract_title_assembled:
  assumes "sp \<in> set (text_spans (blocks p))" and "1 \<le> py_round (span_size sp)"
  shows "extract_title (p # ps) = Inr (title_of_max_size_spans (blocks p))"
proof -
  have "\<not> py_round (span_size sp) < 1"
    using assms(2) by simp
  with assms(1) have nz: "fold max_size_block (blocks p) 0 \<noteq> 0"
    unfolding max_size_zero_iff by blast
  have tl: "title_line_text (page_max_size (blocks p)) =
     (\<lambda>li. strip (concat (map span_text
        (filter (\<lambda>sp. py_round (span_size sp) = page_max_size (blocks p)) (line_spans li)))))"
    by (rule ext) (simp add: title_line_text_def)
  show ?thesis
    using nz
    by (simp add: extract_title_def Let_def max_size_eq_page_max_size [OF assms]
          fold_title_parts_block title_of_max_size_spans_def tl)
qed


subsection \<open>Properties of the title\<close>

text \<open>
  C5, as amended. For every document whose first page has, in a text block, a span
  whose rounded size is at least 1, the title is the one the specification
  describes, assembled from the spans of the largest rounded size; it contains no
  newline.
\<close>

theorem title_from_max_size_spans:
  assumes "\<exists>sp \<in> set (text_spans (blocks p)). 1 \<le> py_round (span_size sp)"
  shows "extract_title (p # ps) = Inr (title_of_max_size_spans (blocks p))
     \<and> CHR 0x0A \<notin> set (title_of_max_size_spans (blocks p))"
proof -
  from assms obtain sp where "sp \<in> set (text_spans (blocks p))" "1 \<le> py_round (span_size sp)"
    by blast
  then have "extract_title (p # ps) = Inr (title_of_max_size_spans (blocks p))"
    by (rule extract_title_assembled)
  moreover have "CHR 0x0A \<notin> set (title_of_max_size_spans (blocks p))"
    unfolding title_of_max_size_spans_def using set_strip newline_replaced by blast
  ultimately show ?thesis by simp
qed

theorem title_from_max_size_spans_witness:
  "extract_title example_title_page = Inr ''Annual Report''"
proof -
  have h: "\<exists>sp \<in> set (text_spans (blocks (hd example_title_page))). 1 \<le> py_round (span_size sp)"
    by code_simp
  have v: "title_of_max_size_spans (blocks (hd example_title_page)) = ''Annual Report''"
    by code_simp
  have d: "example_title_page = hd example_title_page # []"
    by code_simp
  from title_from_max_size_spans [OF h, of "[]"] v d show ?thesis
    by simp
qed


text \<open>
  C5, as stated, asks for this title whenever the first page has a text block with
  spans. It fails on a first page whose only span has size 0.4: the largest rounded
  size is 0, the assembled text would be "abc", and the program returns "Untitled".
\<close>

theorem title_all_spans_round_to_zero:
  "text_spans (blocks (hd example_tiny_font)) = [mk_span ''abc'' (2 / 5) ''Times'']
   \<and> extract_title example_tiny_font = Inr ''Untitled''
   \<and> title_of_max_size_spans (blocks (hd example_tiny_font)) = ''abc''"
  by code_simp


text \<open>
  C6. For every document whose first page has no text block (no block of type 0),
  title extraction returns "Untitled"; it does not fail.
\<close>

theorem untitled_without_text_blocks:
  assumes "\<forall>b \<in> set (blocks p). block_type b \<noteq> 0"
  shows "extract_title (p # ps) = Inr ''Untitled''"
proof -
  from assms have "filter (\<lambda>b. block_type b = 0) (blocks p) = []"
    by (simp add: filter_empty_conv)
  then have "text_spans (blocks p) = []"
    by (simp add: text_spans_def text_lines_def)
  then have "fold max_size_block (blocks p) 0 = 0"
    by (simp add: max_size_zero_iff)
  then show ?thesis
    by (rule extract_title_sentinel)
qed

theorem untitled_without_text_blocks_witness:
  "blocks (hd example_image_only) = [\<lparr>block_type = 1, block_lines = []\<rparr>]
   \<and> extract_title example_image_only = Inr ''Untitled''"
proof -
  have h: "\<forall>b \<in> set (blocks (hd example_image_only)). block_type b \<noteq> 0"
    by code_simp
  have b: "blocks (hd example_image_only) = [\<lparr>block_type = 1, block_lines = []\<rparr>]"
    by code_simp
  have d: "example_image_only = hd example_image_only # []"
    by code_simp
  from untitled_without_text_blocks [OF h, of "[]"] b d show ?thesis
    by simp
qed


text \<open>
  C10, as amended. Title extraction returns "Untitled" when no span of a text block
  of the first page has a rounded size of at least 1, and otherwise only when the
  text assembled from the spans of the largest size is itself "Untitled".
\<close>

theorem untitled_iff:
  "extract_title (p # ps) = Inr ''Untitled'' \<longleftrightarrow>
     (\<forall>sp \<in> set (text_spans (blocks p)). py_round (span_size sp) < 1)
     \<or> title_of_max_size_spans (blocks p) = ''Untitled''"
proof (cases "\<forall>sp \<in> set (text_spans (blocks p)). py_round (span_size sp) < 1")
  case True
  then have "fold max_size_block (blocks p) 0 = 0"
    by (simp add: max_size_zero_iff)
  then have "extract_title (p # ps) = Inr ''Untitled''"
    by (rule extract_title_sentinel)
  with True show ?thesis by simp
next
  case False
  then obtain sp where "sp \<in> set (text_spans (blocks p))" "1 \<le> py_round (span_size sp)"
    by force
  then have "extract_title (p # ps) = Inr (title_of_max_size_spans (blocks p))"
    by (rule extract_title_assembled)
  with False show ?thesis by auto
qed

theorem untitled_iff_witness:
  "text_spans (blocks (hd example_tiny_font)) = [mk_span ''abc'' (2 / 5) ''Times'']
   \<and> py_round (2 / 5) = 0
   \<and> extract_title (hd example_tiny_font # []) = Inr ''Untitled''"
proof -
  have h: "\<forall>sp \<in> set (text_spans (blocks (hd example_tiny_font))). py_round (span_size sp) < 1"
    by code_simp
  have s: "text_spans (blocks (hd example_tiny_font)) = [mk_span ''abc'' (2 / 5) ''Times'']"
    by code_simp
  have r: "py_round (2 / 5) = 0"
    by code_simp
  from untitled_iff [of "hd example_tiny_font" "[]"] h s r show ?thesis
    by simp
qed


text \<open>
  C10, as stated, says that "Untitled" is returned exactly when no span has a
  rounded size of at least 1. It fails on a first page whose only span, of size
  12, has the text "Untitled".
\<close>

theorem untitled_text_at_positive_size:
  "extract_title example_untitled_text = Inr ''Untitled''
   \<and> mk_span ''Untitled'' 12 ''Times'' \<in> set (text_spans (blocks (hd example_untitled_text)))
   \<and> 1 \<le> py_round (span_size (mk_span ''Untitled'' 12 ''Times''))"
  by code_simp



section \<open>The outline builder\<close>

subsection \<open>The merge of a "syllabus" line\<close>

lemma length_lower: "length (lower s) = length s"
  by (simp add: lower_def)


text \<open>
  C2. Take a line with a first span whose style key is a key of the style map, and
  whose text (spans stripped, joined by spaces, whitespace runs collapsed) is
  "syllabus" when lowercased. If the outline is not empty and the text of its last
  entry, the previous entry, contains "overview" when lowercased, the loop body
  appends the line's text to that entry's text with nothing in between: the outline
  keeps its length, and the last entry keeps its level.
\<close>

theorem syllabus_merge:
  assumes syl: "lower (line_text li) = ''syllabus''"
    and first: "line_spans li = sp # rest"
    and recognized: "style_key sp \<in> fst ` set style_map"
    and nonempty: "outline \<noteq> []"
    and overview: "py_in ''overview'' (lower (entry_text (last outline)))"
  shows "outline_line style_map page_num li outline =
           butlast outline
             @ [(last outline)\<lparr>entry_text := entry_text (last outline) @ line_text li\<rparr>]
     \<and> length (outline_line style_map page_num li outline) = length outline
     \<and> entry_level (last (outline_line style_map page_num li outline))
         = entry_level (last outline)"
proof -
  have "length (line_text li) = length (lower (line_text li))"
    by (simp only: length_lower)
  then have long: "\<not> length (line_text li) < 3"
    by (simp add: syl)
  from recognized obtain level where level: "map_of style_map (style_key sp) = Some level"
    by (metis map_of_eq_None_iff not_Some_eq)
  have step: "outline_line style_map page_num li outline =
           butlast outline
             @ [(last outline)\<lparr>entry_text := entry_text (last outline) @ line_text li\<rparr>]"
    using long syl nonempty overview
    by (simp add: outline_line_def first level)
  from nonempty have "length (butlast outline) + 1 = length outline"
    by simp
  with step show ?thesis
    by simp
qed

theorem syllabus_merge_witness:
  "outline_line [((14, True), ''H1''), ((12, False), ''H2'')] 2
      (one_span_line ''Syllabus'' 12 ''Times'')
      [\<lparr>entry_level = ''H1'', entry_text = ''1. Course Overview'', entry_page = 2\<rparr>]
    = [\<lparr>entry_level = ''H1'', entry_text = ''1. Course OverviewSyllabus'', entry_page = 2\<rparr>]"
proof -
  let ?li = "one_span_line ''Syllabus'' 12 ''Times''"
  let ?o = "[\<lparr>entry_level = ''H1'', entry_text = ''1. Course Overview'', entry_page = 2\<rparr>]"
  let ?m = "[((14, True), ''H1''), ((12 :: int, False), ''H2'')]"
  have a: "lower (line_text ?li) = ''syllabus''" by code_simp
  have b: "line_spans ?li = mk_span ''Syllabus'' 12 ''Times'' # []" by code_simp
  have c: "style_key (mk_span ''Syllabus'' 12 ''Times'') \<in> fst ` set ?m" by code_simp
  have d: "?o \<noteq> []" by simp
  have e: "py_in ''overview'' (lower (entry_text (last ?o)))" by code_simp
  have t: "line_text ?li = ''Syllabus''" by code_simp
  from syllabus_merge [OF a b c d e, of 2] t show ?thesis
    by simp
qed


text \<open>The same in a whole document, through the style profiler.\<close>

lemma syllabus_merge_in_document:
  "build_outline example_syllabus (analyze_document_styles example_syllabus)
     = [\<lparr>entry_level = ''H1'', entry_text = ''1. Course OverviewSyllabus'', entry_page = 2\<rparr>,
        \<lparr>entry_level = ''H2'', entry_text = ''Body of the first section.'', entry_page = 2\<rparr>]"
  by code_simp


subsection \<open>Neighbouring entries with the same text\<close>

text \<open>
  A line whose text equals the text of the last entry never changes the outline: it
  is not a heading, or it is dropped as a duplicate (the merge cannot apply, since
  "syllabus" does not contain "overview").
\<close>

lemma not_overview_in_syllabus: "lower s = ''syllabus'' \<Longrightarrow> \<not> py_in ''overview'' (lower s)"
  by simp

lemma duplicate_candidate_dropped:
  assumes "outline \<noteq> []" and "entry_text (last outline) = line_text li"
  shows "outline_line style_map page_num li outline = outline"
  using assms not_overview_in_syllabus [of "line_text li"]
  by (auto simp: outline_line_def split: list.splits option.splits)


text \<open>
  Whatever the document, two neighbouring entries of the outline have different
  texts unless the second one looks like the result of a merge.
\<close>

lemma py_in_iff: "py_in sub s \<longleftrightarrow> (\<exists>p q. s = p @ sub @ q)"
proof (induction s)
  case Nil
  then show ?case by simp
next
  case (Cons c cs)
  have pre: "take (length sub) (c # cs) = sub \<longleftrightarrow> (\<exists>q. c # cs = sub @ q)"
    by (metis append_eq_conv_conj append_take_drop_id)
  have "(\<exists>p q. c # cs = p @ sub @ q) \<longleftrightarrow> (\<exists>q. c # cs = sub @ q) \<or> (\<exists>p q. cs = p @ sub @ q)"
  proof
    assume "\<exists>p q. c # cs = p @ sub @ q"
    then obtain p q where pq: "c # cs = p @ sub @ q" by blast
    show "(\<exists>q. c # cs = sub @ q) \<or> (\<exists>p q. cs = p @ sub @ q)"
    proof (cases p)
      case Nil
      with pq show ?thesis by auto
    next
      case (Cons a p')
      with pq have "cs = p' @ sub @ q" by simp
      then show ?thesis by blast
    qed
  next
    assume "(\<exists>q. c # cs = sub @ q) \<or> (\<exists>p q. cs = p @ sub @ q)"
    then show "\<exists>p q. c # cs = p @ sub @ q"
    proof
      assume "\<exists>q. c # cs = sub @ q"
      then obtain q where "c # cs = [] @ sub @ q" by auto
      then show ?thesis by blast
    next
      assume "\<exists>p q. cs = p @ sub @ q"
      then obtain p q where "c # cs = (c # p) @ sub @ q" by auto
      then show ?thesis by blast
    qed
  qed
  with pre Cons.IH show ?case by simp
qed

lemma py_in_append: "py_in sub s \<Longrightarrow> py_in sub (s @ t)"
  unfolding py_in_iff by (metis append.assoc)

lemma lower_append: "lower (s @ t) = lower s @ lower t"
  by (simp add: lower_def)

lemma merged_text_append:
  assumes "py_in ''overview'' (lower t)" and "lower u = ''syllabus''"
  shows "merged_text (t @ u)"
proof -
  have "length u = length (lower u)" by (simp only: length_lower)
  then have len: "length u = 8" by (simp add: assms(2))
  have "py_in ''overview'' (lower (t @ u))"
    using assms(1) by (simp add: lower_append py_in_append)
  moreover have "drop (length (t @ u) - 8) (lower (t @ u)) = ''syllabus''"
    using len assms(2) by (simp add: lower_append length_lower)
  ultimately show ?thesis by (simp only: merged_text_def)
qed

lemma successively_snoc_replace:
  assumes "successively P xs" and "xs \<noteq> []" and "\<And>a. P a y"
  shows "successively P (butlast xs @ [y])"
proof -
  from assms(2) have "xs = butlast xs @ [last xs]" by simp
  with assms(1) have "successively P (butlast xs @ [last xs])" by simp
  then have "successively P (butlast xs)"
    by (simp add: successively_append_iff)
  with assms(3) show ?thesis
    by (simp add: successively_append_iff)
qed

lemma outline_line_invariant:
  assumes "successively distinct_unless_merged outline"
  shows "successively distinct_unless_merged (outline_line style_map page_num li outline)"
proof -
  have merge: "successively distinct_unless_merged
      (butlast outline @ [(last outline)\<lparr>entry_text := entry_text (last outline) @ line_text li\<rparr>])"
    if "lower (line_text li) = ''syllabus''" "outline \<noteq> []"
       "py_in ''overview'' (lower (entry_text (last outline)))"
    using assms that(2)
  proof (rule successively_snoc_replace)
    fix a
    show "distinct_unless_merged a
            ((last outline)\<lparr>entry_text := entry_text (last outline) @ line_text li\<rparr>)"
      using merged_text_append [OF that(3) that(1)] by (simp add: distinct_unless_merged_def)
  qed
  have app: "successively distinct_unless_merged (outline @ [e])"
    if "outline = [] \<or> entry_text (last outline) \<noteq> entry_text e" for e
    using assms that by (auto simp: successively_append_iff distinct_unless_merged_def)
  show ?thesis
    using assms merge app
    by (simp add: outline_line_def split: list.splits option.splits)
qed

lemma fold_invariant:
  assumes "\<And>x s. I s \<Longrightarrow> I (f x s)" and "I s"
  shows "I (fold f xs s)"
  using assms(2) by (induction xs arbitrary: s) (simp_all add: assms(1))

lemma build_outline_invariant:
  "successively distinct_unless_merged (build_outline doc style_map)"
proof (cases "style_map = []")
  case True
  then show ?thesis by (simp add: build_outline_def)
next
  case False
  have blk: "successively distinct_unless_merged (outline_block style_map n b s)"
    if "successively distinct_unless_merged s" for n b s
    unfolding outline_block_def using that
    by (auto intro: fold_invariant outline_line_invariant)
  have pg: "successively distinct_unless_merged
              ((case x of (n, pg) \<Rightarrow> fold (outline_block style_map n) (blocks pg)) s)"
    if "successively distinct_unless_merged s" for x s
    using that by (cases x) (auto intro: fold_invariant blk)
  have "successively distinct_unless_merged
          (fold (\<lambda>(n, pg). fold (outline_block style_map n) (blocks pg)) (List.enumerate 1 doc) [])"
    by (rule fold_invariant) (simp_all add: pg)
  with False show ?thesis by (simp add: build_outline_def)
qed


text \<open>
  C3. The exception is real. On the second page of \<open>example_merged_duplicate\<close> the
  heading "OverviewSyllabus" is followed by the headings "Overview" and "Syllabus";
  the third is merged into the second, and the outline ends with two neighbouring
  entries of the same text.
\<close>

theorem adjacent_duplicate_after_merge:
  "build_outline example_merged_duplicate (analyze_document_styles example_merged_duplicate)
     = [\<lparr>entry_level = ''H1'', entry_text = ''OverviewSyllabus'', entry_page = 2\<rparr>,
        \<lparr>entry_level = ''H1'', entry_text = ''OverviewSyllabus'', entry_page = 2\<rparr>]"
  by code_simp


section \<open>Documents without heading styles\<close>

lemma build_outline_empty_map: "build_outline doc [] = []"
  by (simp add: build_outline_def)

lemma extract_title_first_page: "extract_title (p # ps) = extract_title [p]"
  by (simp add: extract_title_def)

lemma extract_title_total: "\<exists>t. extract_title (p # ps) = Inr t"
  by (simp add: extract_title_def Let_def)

lemma extract_title_no_pages: "extract_title [] = Inl IndexError"
  by (simp add: extract_title_def)


text \<open>
  C7. If no style is observed on pages 2..N the style profiler returns the empty map,
  and for the empty map the outline builder returns the empty outline, whatever the
  document. A single-page document observes no style. A document with a first page
  and no observed style is processed without error: the title is the one extracted
  from its first page alone, and the outline of the result is empty.
\<close>

theorem empty_histogram:
  "(observed_styles doc = {} \<longrightarrow> analyze_document_styles doc = [])
   \<and> build_outline doc [] = []
   \<and> observed_styles [p] = {}
   \<and> (observed_styles (p # ps) = {} \<longrightarrow>
        (\<exists>t. extract_title (p # ps) = Inr t \<and> extract_title [p] = Inr t
           \<and> process_pdf (p # ps) = Inr \<lparr>result_title = t, result_outline = []\<rparr>))"
proof -
  have a: "analyze_document_styles d = []" if "observed_styles d = {}" for d
  proof -
    from that have "set (map fst (count_styles d)) = {}"
      by (simp only: set_keys_count_styles)
    then have "count_styles d = []" by simp
    then show ?thesis by (simp add: analyze_document_styles_def)
  qed
  have s: "observed_styles [p] = {}"
    by (simp add: observed_styles_def substantial_spans_def text_spans_def text_lines_def)
  have t: "\<exists>t. extract_title (p # ps) = Inr t \<and> extract_title [p] = Inr t
           \<and> process_pdf (p # ps) = Inr \<lparr>result_title = t, result_outline = []\<rparr>"
    if "observed_styles (p # ps) = {}"
  proof -
    from extract_title_total obtain t where t: "extract_title (p # ps) = Inr t" by blast
    then have "extract_title [p] = Inr t"
      using extract_title_first_page [of p ps] by simp
    moreover have "process_pdf (p # ps) = Inr \<lparr>result_title = t, result_outline = []\<rparr>"
      by (simp add: process_pdf_def t a [OF that] build_outline_empty_map)
    ultimately show ?thesis using t by blast
  qed
  from a s t build_outline_empty_map show ?thesis by blast
qed

theorem empty_histogram_witness:
  "observed_styles example_title_page = {}
   \<and> process_pdf example_title_page
       = Inr \<lparr>result_title = ''Annual Report'', result_outline = []\<rparr>"
proof -
  have h: "observed_styles (hd example_title_page # []) = {}" by code_simp
  have d: "example_title_page = hd example_title_page # []" by code_simp
  have v: "extract_title example_title_page = Inr ''Annual Report''" by code_simp
  from empty_histogram [of "example_title_page" "hd example_title_page" "[]"] h d v
  show ?thesis by auto
qed


end
